theory Spec2Isabelle
  imports Main
begin

unbundle bit_operations_syntax

section \<open>Exceptions (midi\_exceptions.py and the built-in ones the code can raise)\<close>

text \<open>
  \<open>MidiError\<close> carries its message; \<open>DataLengthError\<close>, \<open>StatusError\<close>,
  \<open>ChannelError\<close> and \<open>DataError\<close> are its subclasses. \<open>ValueError\<close>,
  \<open>StructError\<close> (\<open>struct.error\<close>), \<open>IndexError\<close>, \<open>KeyError\<close> and \<open>OSError\<close> are
  raised by Python itself: \<open>bytes\<close> on a value outside 0..255, \<open>max\<close> of an empty
  list, \<open>pack\<close>/\<open>unpack\<close> on a value or buffer of the wrong size, a read of a closed
  file, an index into an empty list, a missing dictionary key, a seek before the start of
  the file.
\<close>

datatype error =
    MidiError string
  | DataLengthError
  | StatusError
  | ChannelError
  | DataError
  | ValueError
  | StructError
  | IndexError
  | KeyError
  | OSError

section \<open>Bytes, pack and unpack\<close>

text \<open>A byte string is a list of integers, each in 0..255. \<open>bytes(xs)\<close> raises
  \<open>ValueError\<close> when an element is outside that range.\<close>

definition is_byte :: "int \<Rightarrow> bool" where
  "is_byte b = (0 \<le> b \<and> b < 256)"

definition py_bytes :: "int list \<Rightarrow> error + int list" where
  "py_bytes xs = (if list_all is_byte xs then Inr xs else Inl ValueError)"

text \<open>\<open>pack('>H', v)\<close> and \<open>pack('>L', v)\<close>: big-endian, \<open>struct.error\<close> out of range.\<close>

definition pack_H :: "int \<Rightarrow> error + int list" where
  "pack_H v = (if 0 \<le> v \<and> v < 65536 then Inr [v div 256, v mod 256] else Inl StructError)"

definition pack_L :: "int \<Rightarrow> error + int list" where
  "pack_L v =
     (if 0 \<le> v \<and> v < 4294967296
      then Inr [v div 16777216, v div 65536 mod 256, v div 256 mod 256, v mod 256]
      else Inl StructError)"

text \<open>\<open>unpack('>B', bs)[0]\<close> and \<open>unpack('>HHH', bs)\<close>: \<open>struct.error\<close> unless the
  buffer has exactly the size of the format.\<close>

definition unpack_B :: "int list \<Rightarrow> error + int" where
  "unpack_B bs = (case bs of [b] \<Rightarrow> Inr b | _ \<Rightarrow> Inl StructError)"

definition unpack_HHH :: "int list \<Rightarrow> error + (int \<times> int \<times> int)" where
  "unpack_HHH bs =
     (case bs of
        [a1, a0, b1, b0, c1, c0] \<Rightarrow> Inr (a1 * 256 + a0, b1 * 256 + b0, c1 * 256 + c0)
      | _ \<Rightarrow> Inl StructError)"

section \<open>Header (midifile.py)\<close>

record header =
  mthd :: "int list"
  length_hdr :: int
  file_format :: int
  ntracks :: int
  ppqn :: int

definition MThd :: "int list" where
  "MThd = [77, 84, 104, 100]"

definition MTrk :: "int list" where
  "MTrk = [77, 84, 114, 107]"

definition Header_init :: "int \<Rightarrow> int \<Rightarrow> int \<Rightarrow> error + header" where
  "Header_init ff nt pq =
     (if ff \<notin> set [0, 1, 2] then Inl (MidiError ''Wrong file format'')
      else if ff = 0 \<and> nt \<noteq> 1 then Inl (MidiError ''Format 0 has only 1 track'')
      else if nt \<ge> 15 then
        Inl (MidiError ''16 tracks is maximum for SMF( 1 track for each channel)'')
      else Inr \<lparr>mthd = MThd, length_hdr = 6, file_format = ff, ntracks = nt, ppqn = pq\<rparr>)"

definition Header_to_hex :: "header \<Rightarrow> error + int list" where
  "Header_to_hex h =
     (case pack_L (length_hdr h) of Inl e \<Rightarrow> Inl e | Inr l \<Rightarrow>
      (case pack_H (file_format h) of Inl e \<Rightarrow> Inl e | Inr ff \<Rightarrow>
      (case pack_H (ntracks h) of Inl e \<Rightarrow> Inl e | Inr nt \<Rightarrow>
      (case pack_H (ppqn h) of Inl e \<Rightarrow> Inl e | Inr pq \<Rightarrow>
         Inr (mthd h @ l @ ff @ nt @ pq)))))"

section \<open>StatusBytes\<close>

definition StatusBytes_meta :: "(int \<times> string) list" where
  "StatusBytes_meta =
     [(0, ''Sequence Number''), (1, ''Text''), (2, ''Copyright''),
      (3, ''Sequence / Track Name''), (4, ''Instrument Name''), (5, ''Lyric''),
      (6, ''Marker''), (7, ''Cue Point''), (8, ''Program Name''), (9, ''Device Name''),
      (32, ''MIDI Channel Prefix''), (33, ''MIDI Port''), (47, ''End of Track''),
      (81, ''Tempo''), (84, ''SMPTE Offset''), (88, ''Time Signature''),
      (89, ''Key Signature''), (127, ''Sequencer Specific Event'')]"

definition StatusBytes_sysex :: "(int \<times> string) list" where
  "StatusBytes_sysex =
     [(240, ''Single (complete) SysEx messages''), (247, ''Escape sequences'')]"

definition StatusBytes_midi :: "(int \<times> string) list" where
  "StatusBytes_midi =
     [(128, ''Note off''), (144, ''Note on''), (160, ''Key pressure''),
      (176, ''Control change''), (192, ''Program change''), (208, ''Channel pressure''),
      (224, ''Pitch wheel change'')]"

text \<open>\<open>k in d\<close> and \<open>d[k]\<close> on a dictionary given as its list of items.\<close>

definition in_dict :: "int \<Rightarrow> (int \<times> string) list \<Rightarrow> bool" where
  "in_dict k d = (k \<in> set (map fst d))"

definition dict_get :: "(int \<times> string) list \<Rightarrow> int \<Rightarrow> error + string" where
  "dict_get d k = (case map_of d k of None \<Rightarrow> Inl KeyError | Some v \<Rightarrow> Inr v)"

section \<open>Events\<close>

text \<open>
  The four classes \<open>Event\<close>, \<open>MidiEvent\<close>, \<open>SysExEvent\<close> and \<open>MetaEvent\<close> as one
  datatype; the constructor is the class of the object, its arguments the fields the
  initialisers set. \<open>length\<close> is \<open>len(data)\<close> and the list \<open>self.event\<close> is rebuilt
  from the fields by \<open>event_parts\<close> (no field is assigned after construction).
  Payload elements that are \<open>str\<close> in Python are taken here already as their \<open>ord\<close>
  (\<open>str_to_int\<close>), so \<open>data\<close> is a list of integers.
\<close>

datatype event =
    Event (delta_time: int) (status: int) (data: "int list")
  | MidiEvent (delta_time: int) (status: int) (data: "int list")
  | SysExEvent (delta_time: int) (status: int) (data: "int list")
  | MetaEvent (delta_time: int) (status: int) (data: "int list") (event_type: int)

text \<open>\<open>Event.variable_len\<close>: one step of the \<open>for cnt in range(2)\<close> loop, then the
  function. Every element is masked into 0..255, so the final \<open>bytes(...)\<close> cannot
  raise (lemma \<open>variable_len_bytes\<close> below).\<close>

definition variable_len_step :: "int list \<times> int \<Rightarrow> int list \<times> int" where
  "variable_len_step s =
     (case s of (variable_length, n) \<Rightarrow>
        if n > 0 then (variable_length @ [(n AND 0x7f) OR 0x80], drop_bit 7 n)
        else (variable_length, n))"

definition variable_len :: "int \<Rightarrow> int list" where
  "variable_len time_or_len =
     rev (fst (variable_len_step (variable_len_step
        ([time_or_len AND 0x7f], drop_bit 7 time_or_len))))"

definition Event_init :: "int \<Rightarrow> int \<Rightarrow> int list \<Rightarrow> error + event" where
  "Event_init dt st dat =
     (if \<not> (0 \<le> dt \<and> dt \<le> 4294967167) then Inl (MidiError '' Wrong delta time value'')
      else Inr (Event dt st dat))"

text \<open>\<open>max(data)\<close>: \<open>ValueError\<close> on an empty list.\<close>

definition py_max :: "int list \<Rightarrow> error + int" where
  "py_max xs = (case xs of [] \<Rightarrow> Inl ValueError | x # ys \<Rightarrow> Inr (foldl max x ys))"

definition MidiEvent_init :: "int \<Rightarrow> int \<Rightarrow> int \<Rightarrow> int list \<Rightarrow> error + event" where
  "MidiEvent_init dt st channel_number dat =
     (if \<not> (0 \<le> channel_number \<and> channel_number \<le> 15) then Inl ChannelError
      else if \<not> in_dict st StatusBytes_midi then Inl StatusError
      else if (st \<in> set [192, 223] \<and> length dat \<noteq> 1)
              \<or> (st \<notin> set [192, 223] \<and> length dat \<noteq> 2) then Inl DataLengthError
      else (case py_max dat of Inl e \<Rightarrow> Inl e | Inr m \<Rightarrow>
        if m > 127 then Inl DataError
        else (case Event_init dt (st + channel_number) dat of Inl e \<Rightarrow> Inl e
              | Inr ev \<Rightarrow> Inr (MidiEvent (delta_time ev) (status ev) (data ev)))))"

definition SysExEvent_init :: "int \<Rightarrow> int \<Rightarrow> int list \<Rightarrow> error + event" where
  "SysExEvent_init dt st dat =
     (if \<not> in_dict st StatusBytes_sysex then Inl StatusError
      else (case Event_init dt st dat of Inl e \<Rightarrow> Inl e
            | Inr ev \<Rightarrow> Inr (SysExEvent (delta_time ev) (status ev) (data ev))))"

definition MetaEvent_init :: "int \<Rightarrow> int \<Rightarrow> int list \<Rightarrow> error + event" where
  "MetaEvent_init et dt dat =
     (if \<not> in_dict et StatusBytes_meta
      then Inl (MidiError ''Wrong event type for Meta event'')
      else (case Event_init dt 255 dat of Inl e \<Rightarrow> Inl e
            | Inr ev \<Rightarrow> Inr (MetaEvent (delta_time ev) (status ev) (data ev) et)))"

text \<open>The list \<open>self.event\<close> of each class.\<close>

fun event_parts :: "event \<Rightarrow> int list list" where
  "event_parts (Event dt st dat) = [variable_len dt, [st], dat]"
| "event_parts (MidiEvent dt st dat) = [variable_len dt, [st], dat]"
| "event_parts (SysExEvent dt st dat) =
     [variable_len dt, [st], variable_len (int (length dat)), dat]"
| "event_parts (MetaEvent dt st dat et) =
     [variable_len dt, [st], [et], variable_len (int (length dat)), dat]"

text \<open>\<open>b''.join(map(bytes, parts))\<close>: the first part that is not a byte string raises.\<close>

fun join_bytes :: "int list list \<Rightarrow> error + int list" where
  "join_bytes [] = Inr []"
| "join_bytes (p # ps) =
     (case py_bytes p of Inl e \<Rightarrow> Inl e | Inr b \<Rightarrow>
        (case join_bytes ps of Inl e \<Rightarrow> Inl e | Inr bs \<Rightarrow> Inr (b @ bs)))"

definition to_hex :: "event \<Rightarrow> error + int list" where
  "to_hex ev = join_bytes (event_parts ev)"

text \<open>\<open>get_delta_time\<close> is \<open>bytes(self.event[0])\<close>, a copy of the byte string that
  \<open>variable_len\<close> returned.\<close>

definition get_delta_time :: "event \<Rightarrow> int list" where
  "get_delta_time ev = hd (event_parts ev)"

text \<open>\<open>get_event_type\<close> of each class (the base class has none).\<close>

fun get_event_type :: "event \<Rightarrow> error + string" where
  "get_event_type (MidiEvent dt st dat) = dict_get StatusBytes_midi (st AND 240)"
| "get_event_type (SysExEvent dt st dat) = dict_get StatusBytes_sysex st"
| "get_event_type (MetaEvent dt st dat et) = dict_get StatusBytes_meta et"
| "get_event_type (Event dt st dat) = Inl KeyError"

section \<open>Track\<close>

record track =
  header_trk :: "int list"
  events :: "event list"
  running_status_mode :: bool
  length_trk :: int
  bytes :: "int list"

text \<open>\<open>b''.join(map(Event.to_hex, events))\<close>: the first event that fails raises.\<close>

fun join_hex :: "event list \<Rightarrow> error + int list" where
  "join_hex [] = Inr []"
| "join_hex (ev # evs) =
     (case to_hex ev of Inl e \<Rightarrow> Inl e | Inr h \<Rightarrow>
        (case join_hex evs of Inl e \<Rightarrow> Inl e | Inr hs \<Rightarrow> Inr (h @ hs)))"

text \<open>The loop of \<open>Track.running_status\<close> over \<open>self.events[1:]\<close>, with its two
  variables \<open>byte_string\<close> and \<open>current_status\<close>.\<close>

fun running_status_loop :: "int list \<Rightarrow> int \<Rightarrow> event list \<Rightarrow> error + int list" where
  "running_status_loop byte_string current_status [] = Inr byte_string"
| "running_status_loop byte_string current_status (ev # evs) =
     (if current_status = status ev \<and> status ev < 240 then
        (case to_hex ev of Inl e \<Rightarrow> Inl e | Inr h \<Rightarrow>
           running_status_loop
             (byte_string @ get_delta_time ev @ drop (length (get_delta_time ev) + 1) h)
             (status ev) evs)
      else
        (case to_hex ev of Inl e \<Rightarrow> Inl e | Inr h \<Rightarrow>
           running_status_loop (byte_string @ h) (status ev) evs))"

definition running_status :: "event list \<Rightarrow> error + int list" where
  "running_status evs =
     (case evs of [] \<Rightarrow> Inl IndexError
      | ev0 # rest \<Rightarrow>
          (case to_hex ev0 of Inl e \<Rightarrow> Inl e
           | Inr byte_string \<Rightarrow> running_status_loop byte_string (status ev0) rest))"

definition length_and_bytes :: "event list \<Rightarrow> bool \<Rightarrow> error + (int \<times> int list)" where
  "length_and_bytes evs mode =
     (case (if mode then running_status evs else join_hex evs) of
        Inl e \<Rightarrow> Inl e
      | Inr byte_string \<Rightarrow> Inr (int (length byte_string), byte_string))"

definition Track_init :: "event list \<Rightarrow> bool \<Rightarrow> error + track" where
  "Track_init evs mode =
     (if evs = [] then Inl (MidiError ''Events list is empty'')
      else (case length_and_bytes evs mode of Inl e \<Rightarrow> Inl e
            | Inr (l, b) \<Rightarrow>
                Inr \<lparr>header_trk = MTrk, events = evs, running_status_mode = mode,
                     length_trk = l, bytes = b\<rparr>))"

definition Track_to_hex :: "track \<Rightarrow> error + int list" where
  "Track_to_hex t =
     (case pack_L (length_trk t) of Inl e \<Rightarrow> Inl e
      | Inr l \<Rightarrow> Inr (header_trk t @ l @ bytes t))"

section \<open>MidiFormat\<close>

record midiformat =
  header :: header
  tracks :: "track list"

text \<open>\<open>header\<close> may be \<open>None\<close> in Python (\<open>if not header\<close>); a \<open>Header\<close> object is
  always true.\<close>

definition MidiFormat_init :: "header option \<Rightarrow> track list \<Rightarrow> error + midiformat" where
  "MidiFormat_init hdr trks =
     (case hdr of None \<Rightarrow> Inl (MidiError ''Header is empty'')
      | Some h \<Rightarrow>
          if trks = [] then Inl (MidiError ''Tracks list is empty'')
          else Inr \<lparr>header = h, tracks = trks\<rparr>)"

fun join_tracks :: "track list \<Rightarrow> error + int list" where
  "join_tracks [] = Inr []"
| "join_tracks (t # ts) =
     (case Track_to_hex t of Inl e \<Rightarrow> Inl e | Inr h \<Rightarrow>
        (case join_tracks ts of Inl e \<Rightarrow> Inl e | Inr hs \<Rightarrow> Inr (h @ hs)))"

definition MidiFormat_to_hex :: "midiformat \<Rightarrow> error + int list" where
  "MidiFormat_to_hex mf =
     (case Header_to_hex (header mf) of Inl e \<Rightarrow> Inl e
      | Inr h \<Rightarrow>
          (case join_tracks (tracks mf) of Inl e \<Rightarrow> Inl e | Inr ts \<Rightarrow> Inr (h @ ts)))"

section \<open>The input file\<close>

text \<open>
  A binary file opened for reading: its bytes, the position of the next read and whether
  it has been closed. \<open>read(n)\<close> returns at most \<open>n\<close> bytes (fewer at the end of the
  file, none after it) and raises \<open>ValueError\<close> on a closed file; \<open>seek(-1, 1)\<close> moves
  one byte back and raises \<open>OSError\<close> at position 0.
\<close>

record infile =
  content :: "int list"
  pos :: nat
  closed :: bool

definition open_file :: "int list \<Rightarrow> infile" where
  "open_file bs = \<lparr>content = bs, pos = 0, closed = False\<rparr>"

definition file_read :: "nat \<Rightarrow> infile \<Rightarrow> (error + int list) \<times> infile" where
  "file_read n f =
     (if closed f then (Inl ValueError, f)
      else (Inr (take n (drop (pos f) (content f))),
            f\<lparr>pos := pos f + length (take n (drop (pos f) (content f)))\<rparr>))"

definition file_seek_back :: "infile \<Rightarrow> (error + unit) \<times> infile" where
  "file_seek_back f =
     (if closed f then (Inl ValueError, f)
      else if pos f = 0 then (Inl OSError, f)
      else (Inr (), f\<lparr>pos := pos f - 1\<rparr>))"

definition file_close :: "infile \<Rightarrow> infile" where
  "file_close f = f\<lparr>closed := True\<rparr>"

text \<open>Sequencing of two steps that read the file: an exception of the first step ends
  the computation, with the file as that step left it.\<close>

definition io_bind ::
  "(infile \<Rightarrow> (error + 'a) \<times> infile) \<Rightarrow> ('a \<Rightarrow> infile \<Rightarrow> (error + 'b) \<times> infile)
     \<Rightarrow> infile \<Rightarrow> (error + 'b) \<times> infile" where
  "io_bind m k f = (case m f of (Inl e, f') \<Rightarrow> (Inl e, f') | (Inr x, f') \<Rightarrow> k x f')"

definition io_lift :: "error + 'a \<Rightarrow> infile \<Rightarrow> (error + 'a) \<times> infile" where
  "io_lift r f = (r, f)"

section \<open>MidiParser (midiparser.py)\<close>

text \<open>\<open>MidiParser.__variable_len\<close>.\<close>

definition parser_variable_len :: "int list \<Rightarrow> int" where
  "parser_variable_len array = foldl (\<lambda>output n. push_bit 7 output OR (n AND 0x7f)) 0 array"

text \<open>\<open>MidiParser.__read_var_len\<close>: the loop \<open>for cnt in range(4)\<close>, counting the
  rounds that are left, with the list \<open>byte\<close>.\<close>

fun read_var_len_loop :: "nat \<Rightarrow> int list \<Rightarrow> infile \<Rightarrow> (error + int list) \<times> infile" where
  "read_var_len_loop 0 byte f = (Inr byte, f)"
| "read_var_len_loop (Suc cnt) byte f =
     (case file_read 1 f of (Inl e, f') \<Rightarrow> (Inl e, f')
      | (Inr bs, f') \<Rightarrow>
          (case unpack_B bs of Inl e \<Rightarrow> (Inl e, f')
           | Inr b \<Rightarrow>
               if b \<le> 127 then (Inr (byte @ [b]), f')
               else read_var_len_loop cnt (byte @ [b]) f'))"

definition read_var_len :: "infile \<Rightarrow> (error + int) \<times> infile" where
  "read_var_len f =
     (case read_var_len_loop 4 [] f of (Inl e, f') \<Rightarrow> (Inl e, f')
      | (Inr byte, f') \<Rightarrow> (Inr (parser_variable_len byte), f'))"

definition read_header :: "infile \<Rightarrow> (error + header) \<times> infile" where
  "read_header =
     io_bind (file_read 8) (\<lambda>m.
       if m \<noteq> [] \<and> take 4 m \<noteq> MThd then
         io_bind (file_read 6) (\<lambda>bs.
         io_bind (io_lift (unpack_HHH bs)) (\<lambda>(ff, nt, pq).
           io_lift (Header_init ff nt pq)))
       else io_lift (Inl ValueError))"

definition read_midi_event_data :: "int \<Rightarrow> infile \<Rightarrow> (error + int list) \<times> infile" where
  "read_midi_event_data st =
     file_read (if 192 \<le> st \<and> st \<le> 223 then 1 else 2)"

definition read_sysex_event_data :: "infile \<Rightarrow> (error + (int \<times> int list)) \<times> infile" where
  "read_sysex_event_data =
     io_bind read_var_len (\<lambda>len.
     io_bind (file_read (nat len)) (\<lambda>dat.
       io_lift (Inr (len, dat))))"

definition read_meta_event_data ::
  "infile \<Rightarrow> (error + (int \<times> int \<times> int list)) \<times> infile" where
  "read_meta_event_data =
     io_bind (file_read 1) (\<lambda>bs.
     io_bind (io_lift (unpack_B bs)) (\<lambda>et.
     io_bind read_var_len (\<lambda>len.
     io_bind (file_read (nat len)) (\<lambda>dat.
       io_lift (Inr (et, len, dat))))))"

definition read_event :: "event \<Rightarrow> infile \<Rightarrow> (error + event) \<times> infile" where
  "read_event current_event =
     io_bind read_var_len (\<lambda>dt.
     io_bind (file_read 1) (\<lambda>bs.
     io_bind (io_lift (unpack_B bs)) (\<lambda>st.
       if in_dict (status current_event AND 240) StatusBytes_midi \<and> st < 128 then
         io_bind (read_midi_event_data (status current_event)) (\<lambda>more.
         io_bind file_seek_back (\<lambda>_.
           io_lift (MidiEvent_init dt
             (status current_event - (status current_event AND 15))
             (status current_event AND 15) (st # butlast more))))
       else if st \<notin> set [240, 247, 255] then
         io_bind (read_midi_event_data st) (\<lambda>dat.
           io_lift (MidiEvent_init dt (st - (st AND 15)) (st AND 15) dat))
       else if st = 255 then
         io_bind read_meta_event_data (\<lambda>(et, len, dat).
           io_lift (MetaEvent_init et dt dat))
       else
         io_bind read_sysex_event_data (\<lambda>(len, dat).
           io_lift (SysExEvent_init dt st dat)))))"

text \<open>\<open>isinstance(event, MetaEvent) and event.event_type == 47\<close>.\<close>

fun is_end_of_track :: "event \<Rightarrow> bool" where
  "is_end_of_track (MetaEvent dt st dat et) = (et = 47)"
| "is_end_of_track _ = False"

text \<open>The bytes left between the position and the end of the file: every event that
  \<open>read_event\<close> returns has consumed at least one of them, which ends the loop of
  \<open>__read_track\<close>.\<close>

definition remaining :: "infile \<Rightarrow> nat" where
  "remaining f = length (content f) - pos f"

lemma io_bind_InrE:
  assumes "io_bind m k f = (Inr y, f'')"
  obtains x f' where "m f = (Inr x, f')" and "k x f' = (Inr y, f'')"
  using assms by (auto simp: io_bind_def split: prod.splits sum.splits)

lemma io_lift_InrE:
  assumes "io_lift r f = (Inr y, f')"
  obtains "r = Inr y" and "f' = f"
  using assms by (auto simp: io_lift_def)

lemma file_read_remaining:
  "file_read n f = (Inr bs, f') \<Longrightarrow> remaining f' + length bs = remaining f"
  by (auto simp: file_read_def remaining_def split: if_splits)

lemma file_seek_back_remaining:
  "file_seek_back f = (Inr u, f') \<Longrightarrow> remaining f' \<le> remaining f + 1"
  by (auto simp: file_seek_back_def remaining_def split: if_splits)

lemma unpack_B_length: "unpack_B bs = Inr b \<Longrightarrow> length bs = 1"
  by (auto simp: unpack_B_def split: list.splits)

lemma read_var_len_loop_remaining:
  "read_var_len_loop cnt byte f = (Inr r, f') \<Longrightarrow>
     remaining f' \<le> remaining f \<and> (0 < cnt \<longrightarrow> remaining f' < remaining f)"
proof (induction cnt arbitrary: byte f)
  case 0
  then show ?case by simp
next
  case (Suc cnt)
  from Suc.prems obtain bs f1 b where rd: "file_read 1 f = (Inr bs, f1)"
    and b: "unpack_B bs = Inr b"
    and rest: "b \<le> 127 \<and> f' = f1 \<or> read_var_len_loop cnt (byte @ [b]) f1 = (Inr r, f')"
    by (auto split: prod.splits sum.splits if_splits)
  from file_read_remaining [OF rd] unpack_B_length [OF b]
  have "remaining f1 + 1 = remaining f" by simp
  with rest Suc.IH show ?case by fastforce
qed

lemma read_var_len_remaining:
  "read_var_len f = (Inr v, f') \<Longrightarrow> remaining f' < remaining f"
  by (auto simp: read_var_len_def split: prod.splits sum.splits
      dest: read_var_len_loop_remaining)

lemma read_event_remaining:
  assumes "read_event cur f = (Inr ev, f')"
  shows "remaining f' < remaining f"
  using assms unfolding read_event_def read_midi_event_data_def
    read_meta_event_data_def read_sysex_event_data_def
  by (auto elim!: io_bind_InrE io_lift_InrE split: if_splits prod.splits
      dest!: read_var_len_remaining file_read_remaining file_seek_back_remaining
        unpack_B_length)

text \<open>The \<open>while\<close> loop of \<open>__read_track\<close>; \<open>event\<close> and \<open>current_event\<close> are
  the same object at its head.\<close>

function read_track_loop :: "event \<Rightarrow> event list \<Rightarrow> infile \<Rightarrow> (error + event list) \<times> infile" where
  "read_track_loop ev evs f =
     (if is_end_of_track ev then (Inr evs, f)
      else (case read_event ev f of (Inl e, f') \<Rightarrow> (Inl e, f')
            | (Inr ev', f') \<Rightarrow> read_track_loop ev' (evs @ [ev']) f'))"
  by pat_completeness auto
termination
  by (relation "measure (\<lambda>(ev, evs, f). remaining f)")
     (auto dest: read_event_remaining [OF sym])

text \<open>The string \<open>'Just Event'\<close> as the list of its character codes.\<close>

definition Just_Event :: "int list" where
  "Just_Event = [74, 117, 115, 116, 32, 69, 118, 101, 110, 116]"

definition read_track :: "infile \<Rightarrow> (error + track) \<times> infile" where
  "read_track =
     io_bind (file_read 8) (\<lambda>hdr.
       if hdr \<noteq> [] then
         io_bind (io_lift (MetaEvent_init 1 0 Just_Event)) (\<lambda>ev0.
         io_bind (read_event ev0) (\<lambda>ev.
         io_bind (read_track_loop ev [ev]) (\<lambda>evs.
           io_lift (Track_init evs True))))
       else io_lift (Inl ValueError))"

text \<open>The loop \<open>for cnt in range(header.ntracks)\<close> of \<open>read_all\<close>.\<close>

fun read_tracks :: "nat \<Rightarrow> track list \<Rightarrow> infile \<Rightarrow> (error + track list) \<times> infile" where
  "read_tracks 0 trks f = (Inr trks, f)"
| "read_tracks (Suc cnt) trks f =
     (case read_track f of (Inl e, f') \<Rightarrow> (Inl e, f')
      | (Inr t, f') \<Rightarrow> read_tracks cnt (trks @ [t]) f')"

definition read_all :: "infile \<Rightarrow> (error + midiformat) \<times> infile" where
  "read_all =
     io_bind read_header (\<lambda>hdr.
     io_bind (read_tracks (nat (ntracks hdr)) []) (\<lambda>trks.
     io_bind (io_lift (MidiFormat_init (Some hdr) trks)) (\<lambda>mf f.
       (Inr mf, file_close f))))"

section \<open>Header construction\<close>

text \<open>
  Claim C9. \<open>Header(0, 2, _)\<close> and \<open>Header(1, 15, _)\<close> raise, \<open>Header(1, 14, _)\<close>
  succeeds; for a format in \<open>{0, 1, 2}\<close> the construction succeeds exactly when the
  track count is below 15 and, for format 0, equals 1. Every failure is a \<open>MidiError\<close>.
\<close>

theorem Header_init_track_count:
  assumes "ff \<in> {0, 1, 2}"
  shows "(\<exists>e. Header_init 0 2 pq = Inl e) \<and> (\<exists>e. Header_init 1 15 pq = Inl e)
       \<and> Header_init 1 14 pq =
           Inr \<lparr>mthd = MThd, length_hdr = 6, file_format = 1, ntracks = 14, ppqn = pq\<rparr>
       \<and> ((\<exists>h. Header_init ff nt pq = Inr h) \<longleftrightarrow> (nt < 15 \<and> (ff = 0 \<longrightarrow> nt = 1)))
       \<and> ((\<exists>h. Header_init ff nt pq = Inr h) \<or> (\<exists>m. Header_init ff nt pq = Inl (MidiError m)))"
  using assms by (auto simp: Header_init_def)

theorem Header_init_track_count_witness:
  "(1::int) \<in> {0, 1, 2} \<and> (\<exists>e. Header_init 0 2 96 = Inl e) \<and> (\<exists>e. Header_init 1 15 96 = Inl e)
     \<and> (\<exists>h. Header_init 1 14 96 = Inr h) \<and> (\<exists>h. Header_init 1 3 96 = Inr h)"
  using Header_init_track_count [of 1 96 3] by simp

section \<open>Channel-voice events\<close>

lemma channel_cases:
  "0 \<le> (c::int) \<Longrightarrow> c \<le> 15 \<Longrightarrow>
     c \<in> {0, 1, 2, 3, 4, 5, 6, 7, 8, 9, 10, 11, 12, 13, 14, 15}"
  by simp presburger

lemma MidiEvent_init_Inr:
  assumes "MidiEvent_init dt st chn dat = Inr ev"
  shows "0 \<le> chn" "chn \<le> 15" "st \<in> {128, 144, 160, 176, 192, 208, 224}"
    "ev = MidiEvent dt (st + chn) dat"
  using assms
  by (auto simp: MidiEvent_init_def Event_init_def in_dict_def StatusBytes_midi_def
      split: if_splits sum.splits)

lemma status_nibbles:
  assumes "(c::int) \<in> {0, 1, 2, 3, 4, 5, 6, 7, 8, 9, 10, 11, 12, 13, 14, 15}"
    and "(b::int) \<in> {128, 144, 160, 176, 192, 208, 224}"
  shows "(b + c) AND 240 = b" "(b + c) AND 15 = c"
  using assms by auto

text \<open>
  Claim C10. A channel-voice event that \<open>MidiEvent\<close> has constructed was given a
  channel in 0..15 and one of the seven base statuses; its stored status is the base
  status plus the channel and stays within the family's 16 values, so \<open>status & 240\<close> is
  the base status, \<open>status & 15\<close> the channel, and \<open>get_event_type\<close> finds its key in
  \<open>StatusBytes.midi\<close>.
\<close>

theorem MidiEvent_status_nibbles:
  assumes "MidiEvent_init dt st chn dat = Inr ev"
  shows "0 \<le> chn \<and> chn \<le> 15 \<and> st \<in> {128, 144, 160, 176, 192, 208, 224}
       \<and> status ev = st + chn \<and> status ev < st + 16
       \<and> status ev AND 240 = st \<and> status ev AND 15 = chn
       \<and> in_dict (status ev AND 240) StatusBytes_midi
       \<and> (\<exists>name. get_event_type ev = Inr name)"
proof -
  note f = MidiEvent_init_Inr [OF assms]
  have n: "(st + chn) AND 240 = st" "(st + chn) AND 15 = chn"
    using status_nibbles [OF channel_cases [OF f(1) f(2)] f(3)] by simp_all
  have d: "in_dict st StatusBytes_midi" "\<exists>name. dict_get StatusBytes_midi st = Inr name"
    using f(3) by (auto simp: in_dict_def dict_get_def StatusBytes_midi_def)
  show ?thesis using f n d by simp
qed

theorem MidiEvent_status_nibbles_witness:
  "MidiEvent_init 0 144 9 [60, 127] = Inr (MidiEvent 0 153 [60, 127])
     \<and> status (MidiEvent 0 153 [60, 127]) AND 240 = 144
     \<and> status (MidiEvent 0 153 [60, 127]) AND 15 = 9
     \<and> get_event_type (MidiEvent 0 153 [60, 127]) = Inr ''Note on''"
proof -
  have c: "MidiEvent_init 0 144 9 [60, 127] = Inr (MidiEvent 0 153 [60, 127])"
    by (simp add: MidiEvent_init_def Event_init_def in_dict_def StatusBytes_midi_def
        py_max_def)
  show ?thesis using MidiEvent_status_nibbles [OF c] c
    by (simp add: dict_get_def StatusBytes_midi_def)
qed

text \<open>
  Claim C5 fails on the code at Channel Pressure. The length test of \<open>MidiEvent\<close> is
  \<open>status in [192, 223]\<close>, a list of two values, so base status 208 falls under the
  two-byte rule: a one-byte Channel Pressure event is refused with \<open>DataLengthError\<close>
  and a two-byte one is accepted, while Program Change (192) takes one byte. The parser
  reads one data byte for every status in 192..223 and so cannot decode any Channel
  Pressure message.
\<close>

theorem ChannelPressure_one_byte_rejected:
  "MidiEvent_init 0 208 0 [5] = Inl DataLengthError
     \<and> MidiEvent_init 0 208 0 [5, 6] = Inr (MidiEvent 0 208 [5, 6])
     \<and> MidiEvent_init 0 192 0 [5] = Inr (MidiEvent 0 192 [5])
     \<and> fst (read_midi_event_data 208 (open_file [5, 0, 255, 47, 0])) = Inr [5]
     \<and> fst (read_event (MetaEvent 0 255 Just_Event 1)
              (open_file [0, 208, 5, 0, 255, 47, 0])) = Inl DataLengthError"
  by code_simp

section \<open>Delta times and variable-length quantities\<close>

text \<open>
  Claim C8 fails on the code. The bound of \<open>Event.__init__\<close> is 4294967167
  (\<open>0xFFFFFF7F\<close>, the bytes of the largest four-byte quantity read as a plain number),
  not \<open>0x0FFFFFFF\<close> = 268435455: a delta time of 268435456 is accepted by the
  initialiser of every class, and rejection starts at 4294967168.
\<close>

theorem delta_time_above_28_bits_accepted:
  "Event_init 268435456 144 [60, 127] = Inr (Event 268435456 144 [60, 127])
     \<and> MidiEvent_init 268435456 144 0 [60, 127] = Inr (MidiEvent 268435456 144 [60, 127])
     \<and> SysExEvent_init 268435456 240 [1] = Inr (SysExEvent 268435456 240 [1])
     \<and> MetaEvent_init 47 268435456 [] = Inr (MetaEvent 268435456 255 [] 47)
     \<and> Event_init 4294967167 144 [60, 127] = Inr (Event 4294967167 144 [60, 127])
     \<and> Event_init 4294967168 144 [60, 127] = Inl (MidiError '' Wrong delta time value'')"
  by (simp add: MidiEvent_init_def SysExEvent_init_def MetaEvent_init_def Event_init_def
      in_dict_def StatusBytes_midi_def StatusBytes_sysex_def StatusBytes_meta_def py_max_def)

text \<open>
  Claim C3 fails on the code from 2097152 = \<open>2 ^ 21\<close> on. \<open>Event.variable_len\<close> runs its
  loop twice and so writes at most three bytes: 2097152 becomes \<open>80 80 00\<close>, which
  \<open>__read_var_len\<close> reads back as 0.
\<close>

theorem variable_len_2097152:
  "variable_len 2097152 = [128, 128, 0]
     \<and> read_var_len (open_file (variable_len 2097152)) =
         (Inr 0, \<lparr>content = [128, 128, 0], pos = 3, closed = False\<rparr>)"
  by (simp add: variable_len_def variable_len_step_def read_var_len_def open_file_def
      file_read_def unpack_B_def parser_variable_len_def numeral_eq_Suc)

lemma drop_pos_Cons:
  "drop p xs = b # rest \<Longrightarrow> drop (Suc p) xs = rest"
  by (metis drop_Suc list.sel(3) tl_drop)

lemma read_var_len_loop_eq:
  "\<not> closed f \<Longrightarrow>
   read_var_len_loop cnt byte f =
     (let rest = drop (pos f) (content f);
          n = min cnt (Suc (length (takeWhile (\<lambda>b. 127 < b) rest)))
      in if n \<le> length rest then (Inr (byte @ take n rest), f\<lparr>pos := pos f + n\<rparr>)
         else (Inl StructError, f\<lparr>pos := pos f + length rest\<rparr>))"
proof (induction cnt arbitrary: byte f)
  case 0
  then show ?case by simp
next
  case (Suc cnt)
  show ?case
  proof (cases "drop (pos f) (content f)")
    case Nil
    with Suc.prems show ?thesis
      by (simp add: file_read_def unpack_B_def)
  next
    case (Cons b rest)
    let ?f1 = "f\<lparr>pos := pos f + 1\<rparr>"
    have rd: "file_read 1 f = (Inr [b], ?f1)"
      using Suc.prems Cons by (simp add: file_read_def)
    have rest: "drop (pos ?f1) (content ?f1) = rest"
      using drop_pos_Cons [OF Cons] by simp
    have nc: "\<not> closed ?f1" using Suc.prems by simp
    show ?thesis
    proof (cases "b \<le> 127")
      case True
      then show ?thesis using rd Cons by (simp add: unpack_B_def)
    next
      case False
      then show ?thesis
        using rd Cons Suc.IH [OF nc, of "byte @ [b]", unfolded rest]
        by (simp add: unpack_B_def Let_def)
    qed
  qed
qed

text \<open>
  Claim C7 fails on the code: \<open>__read_var_len\<close> has no error for an unterminated
  quantity. Its loop is \<open>for cnt in range(4)\<close> with a \<open>break\<close> at the first byte
  \<open>\<le> 127\<close>, so after four continuation bytes it stops and returns the value of their
  four 7-bit groups, leaving the fifth byte unread: \<open>81 80 80 80 80 00\<close> gives 2097152
  at position 4.
\<close>

theorem read_var_len_four_continuation_bytes:
  "read_var_len (open_file [129, 128, 128, 128, 128, 0]) =
     (Inr 2097152, \<lparr>content = [129, 128, 128, 128, 128, 0], pos = 4, closed = False\<rparr>)"
  by (simp add: read_var_len_def open_file_def
      file_read_def unpack_B_def parser_variable_len_def numeral_eq_Suc)

text \<open>
  Claim C7 as amended. On an open file, \<open>__read_var_len\<close> reads bytes until one with
  the high bit clear or until four bytes have been read, whichever comes first, and
  returns the value accumulated from the 7-bit groups of the bytes it read, with the
  position just after them. It raises only \<open>struct.error\<close>, and only when the file ends
  before that; it never reads a fifth byte.
\<close>

theorem read_var_len_at_most_four_bytes:
  assumes "\<not> closed f"
  shows "read_var_len f =
     (let rest = drop (pos f) (content f);
          n = min 4 (Suc (length (takeWhile (\<lambda>b. 127 < b) rest)))
      in if n \<le> length rest
         then (Inr (parser_variable_len (take n rest)), f\<lparr>pos := pos f + n\<rparr>)
         else (Inl StructError, f\<lparr>pos := pos f + length rest\<rparr>))"
  using read_var_len_loop_eq [OF assms, of 4 "[]"]
  by (simp add: read_var_len_def Let_def)

theorem read_var_len_at_most_four_bytes_witness:
  "\<not> closed (open_file [129, 128, 128, 128, 128, 0])
     \<and> read_var_len (open_file [129, 128, 128, 128, 128, 0]) =
         (Inr 2097152, \<lparr>content = [129, 128, 128, 128, 128, 0], pos = 4, closed = False\<rparr>)
     \<and> fst (read_var_len (open_file [129, 128])) = Inl StructError"
proof -
  have c: "\<not> closed (open_file [129, 128, 128, 128, 128, 0])"
    by (simp add: open_file_def)
  have c2: "\<not> closed (open_file [129, 128])"
    by (simp add: open_file_def)
  show ?thesis
    using read_var_len_at_most_four_bytes [OF c] read_var_len_at_most_four_bytes [OF c2] c
    by (simp add: open_file_def parser_variable_len_def)
qed

subsection \<open>What the encoder does write\<close>

text \<open>
  \<open>Event.variable_len\<close> writes one to three bytes, each a byte, every one but the last
  with bit 7 set and the last with bit 7 clear; what \<open>__read_var_len\<close> reads back from
  them is the low 21 bits of the number, so the round trip holds exactly below
  \<open>2 ^ 21\<close>.
\<close>

lemma and_127: "x AND (127::int) = take_bit 7 x"
  by (simp add: take_bit_eq_mask mask_eq_exp_minus_1)

lemma push_and_take: "push_bit 7 (y::int) AND take_bit 7 x = 0"
  by (rule bit_eqI) (auto simp: bit_simps)

lemma push_or_take: "push_bit 7 (y::int) OR take_bit 7 x = push_bit 7 y + take_bit 7 x"
  by (simp add: disjunctive_add_eq_or push_and_take)

lemma or_128: "take_bit 7 x OR (128::int) = 128 + take_bit 7 x"
  using push_or_take [of 1 x] by (simp add: or.commute)

lemma or_128_and_127: "(take_bit 7 x OR 128) AND (127::int) = take_bit 7 x"
proof -
  have "(take_bit 7 x OR 128) AND (127::int) = take_bit 7 (128 + take_bit 7 x)"
    by (simp only: and_127 or_128)
  also have "\<dots> = take_bit 7 x"
    by (simp add: take_bit_eq_mod)
  finally show ?thesis .
qed

lemma take_bit_21_split:
  "push_bit 7 (push_bit 7 (take_bit 7 (drop_bit 7 (drop_bit 7 n))) + take_bit 7 (drop_bit 7 n))
     + take_bit 7 n = take_bit 21 (n::int)"
proof -
  have a: "n mod 2097152 = 128 * (n div 128 mod 16384) + n mod 128"
    using zmod_zmult2_eq [of 16384 n 128] by simp
  have b: "(n div 128) mod 16384 = 128 * (n div 128 div 128 mod 128) + n div 128 mod 128"
    using zmod_zmult2_eq [of 128 "n div 128" 128] by simp
  show ?thesis
    by (simp add: take_bit_eq_mod drop_bit_eq_div push_bit_eq_mult a b)
qed

lemma variable_len_cases:
  "variable_len n =
     (if drop_bit 7 n \<le> 0 then [take_bit 7 n]
      else if drop_bit 7 (drop_bit 7 n) \<le> 0
        then [128 + take_bit 7 (drop_bit 7 n), take_bit 7 n]
      else [128 + take_bit 7 (drop_bit 7 (drop_bit 7 n)),
            128 + take_bit 7 (drop_bit 7 n), take_bit 7 n])"
  by (simp add: variable_len_def variable_len_step_def and_127 or_128)

lemma variable_len_bytes: "py_bytes (variable_len n) = Inr (variable_len n)"
  by (simp add: variable_len_cases py_bytes_def is_byte_def take_bit_eq_mod)

lemma variable_len_shape:
  "length (variable_len n) \<in> {1, 2, 3} \<and> last (variable_len n) < 128
     \<and> 0 \<le> last (variable_len n)
     \<and> list_all (\<lambda>b. 128 \<le> b \<and> b < 256) (butlast (variable_len n))"
  by (simp add: variable_len_cases take_bit_eq_mod)

lemma parser_variable_len_variable_len:
  assumes "0 \<le> n"
  shows "parser_variable_len (variable_len n) = take_bit 21 n"
proof -
  have d1: "0 \<le> drop_bit 7 n" using assms by simp
  have d2: "0 \<le> drop_bit 7 (drop_bit 7 n)" using assms by simp
  have z: "take_bit 7 (0::int) = 0" by simp
  have dec: "take_bit 7 (128 + take_bit 7 x) = take_bit 7 (x::int)" for x
    by (simp add: take_bit_eq_mod)
  show ?thesis
  proof (cases "drop_bit 7 n \<le> 0")
    case True
    then have "drop_bit 7 n = 0" using d1 by linarith
    then show ?thesis
      using take_bit_21_split [of n] True
      by (simp add: variable_len_cases parser_variable_len_def and_127)
  next
    case False
    show ?thesis
    proof (cases "drop_bit 7 (drop_bit 7 n) \<le> 0")
      case True
      then have "drop_bit 7 (drop_bit 7 n) = 0" using d2 by linarith
      then show ?thesis
        using take_bit_21_split [of n] True False
        by (simp add: variable_len_cases parser_variable_len_def and_127 dec push_or_take)
    next
      case F2: False
      show ?thesis
        using take_bit_21_split [of n] False F2
        by (simp add: variable_len_cases parser_variable_len_def and_127 dec push_or_take
            flip: push_bit_add)
    qed
  qed
qed

lemma variable_len_round_trip_iff:
  assumes "0 \<le> n"
  shows "parser_variable_len (variable_len n) = n \<longleftrightarrow> n < 2097152"
  using assms by (simp add: parser_variable_len_variable_len take_bit_int_eq_self_iff)

lemma read_var_len_variable_len:
  assumes "0 \<le> n"
  shows "read_var_len (open_file (variable_len n)) =
     (Inr (take_bit 21 n),
      \<lparr>content = variable_len n, pos = length (variable_len n), closed = False\<rparr>)"
proof -
  have m: "0 \<le> x mod 128 \<and> x mod 128 < 128" for x :: int
    by simp
  have tw: "Suc (length (takeWhile (\<lambda>b. 127 < b) (variable_len n))) = length (variable_len n)"
    using m [of n] m [of "drop_bit 7 n"] m [of "drop_bit 14 n"]
    by (auto simp: variable_len_cases take_bit_eq_mod)
  have len: "length (variable_len n) \<le> 4"
    by (simp add: variable_len_cases)
  have nc: "\<not> closed (open_file (variable_len n))"
    by (simp add: open_file_def)
  show ?thesis
    using read_var_len_loop_eq [OF nc, of 4 "[]"] tw len
      parser_variable_len_variable_len [OF assms]
    by (simp add: read_var_len_def open_file_def Let_def min_def)
qed

section \<open>Running status\<close>

text \<open>
  The running-status rule in the words of the specification, against which
  \<open>Track.running_status\<close> is compared. \<open>spec_VLQ\<close> is the variable-length quantity
  of the specification: the number split into 7-bit groups, most significant group
  first, the continuation bit \<open>0x80\<close> set on every byte but the last, one to four
  bytes. \<open>spec_payload\<close> is the variant payload that follows the status byte,
  \<open>spec_full\<close> an event in full (\<open>VLQ(delta_time) ++ status ++ variant-payload\<close>),
  \<open>spec_emitted acc ev\<close> what is written for \<open>ev\<close> when the accumulator holds
  \<open>acc\<close>, and \<open>spec_emitted_from\<close> the scan that sets the accumulator to the status
  of each event after writing it.
\<close>

definition spec_VLQ :: "int \<Rightarrow> int list" where
  "spec_VLQ n =
     (if n < 128 then [n]
      else if n < 16384 then [128 + n div 128, n mod 128]
      else if n < 2097152 then [128 + n div 16384, 128 + n div 128 mod 128, n mod 128]
      else [128 + n div 2097152 mod 128, 128 + n div 16384 mod 128,
            128 + n div 128 mod 128, n mod 128])"

fun spec_payload :: "event \<Rightarrow> int list" where
  "spec_payload (Event dt st dat) = dat"
| "spec_payload (MidiEvent dt st dat) = dat"
| "spec_payload (SysExEvent dt st dat) = spec_VLQ (int (length dat)) @ dat"
| "spec_payload (MetaEvent dt st dat et) = et # spec_VLQ (int (length dat)) @ dat"

definition spec_full :: "event \<Rightarrow> int list" where
  "spec_full ev = spec_VLQ (delta_time ev) @ status ev # spec_payload ev"

definition spec_emitted :: "int \<Rightarrow> event \<Rightarrow> int list" where
  "spec_emitted acc ev =
     (if status ev = acc \<and> status ev < 240
      then spec_VLQ (delta_time ev) @ spec_payload ev
      else spec_full ev)"

fun spec_emitted_from :: "int \<Rightarrow> event list \<Rightarrow> int list" where
  "spec_emitted_from acc [] = []"
| "spec_emitted_from acc (ev # evs) = spec_emitted acc ev @ spec_emitted_from (status ev) evs"

text \<open>The length that a \<open>SysExEvent\<close> or \<open>MetaEvent\<close> writes before its data, and the
  events whose delta time and length both fit the three bytes that
  \<open>Event.variable_len\<close> can write.\<close>

fun written_length :: "event \<Rightarrow> int" where
  "written_length (Event dt st dat) = 0"
| "written_length (MidiEvent dt st dat) = 0"
| "written_length (SysExEvent dt st dat) = int (length dat)"
| "written_length (MetaEvent dt st dat et) = int (length dat)"

definition within_21_bits :: "event \<Rightarrow> bool" where
  "within_21_bits ev =
     (0 \<le> delta_time ev \<and> delta_time ev < 2097152 \<and> written_length ev < 2097152)"

text \<open>\<open>spec_VLQ\<close> is the quantity that \<open>__read_var_len\<close> decodes, on the whole range
  \<open>0 .. 0x0FFFFFFF\<close>; \<open>Event.variable_len\<close> agrees with it below \<open>2 ^ 21\<close> only.\<close>

lemma parser_variable_len_snoc:
  "parser_variable_len (bs @ [b]) = 128 * parser_variable_len bs + b mod 128"
proof -
  have "push_bit 7 y OR (b AND 127) = 128 * y + b mod 128" for y :: int
    using push_or_take [of y b] by (simp add: and_127 take_bit_eq_mod push_bit_eq_mult)
  then show ?thesis by (simp add: parser_variable_len_def)
qed

lemma parser_variable_len_Nil: "parser_variable_len [] = 0"
  by (simp add: parser_variable_len_def)

lemma parser_variable_len_1: "parser_variable_len [a] = a mod 128"
  using parser_variable_len_snoc [of "[]" a] by (simp add: parser_variable_len_Nil)

lemma parser_variable_len_2:
  "parser_variable_len [b, a] = 128 * (b mod 128) + a mod 128"
  using parser_variable_len_snoc [of "[b]" a] by (simp add: parser_variable_len_1)

lemma parser_variable_len_3:
  "parser_variable_len [c, b, a] = 128 * (128 * (c mod 128) + b mod 128) + a mod 128"
  using parser_variable_len_snoc [of "[c, b]" a] by (simp add: parser_variable_len_2)

lemma parser_variable_len_4:
  "parser_variable_len [d, c, b, a] =
     128 * (128 * (128 * (d mod 128) + c mod 128) + b mod 128) + a mod 128"
  using parser_variable_len_snoc [of "[d, c, b]" a] by (simp add: parser_variable_len_3)

lemma parser_variable_len_spec_VLQ:
  assumes "0 \<le> n" and "n < 268435456"
  shows "parser_variable_len (spec_VLQ n) = n"
proof -
  have d1: "128 * (n div 128) + n mod 128 = n" by simp
  have q2: "n div 16384 = n div 128 div 128"
    using zdiv_zmult2_eq [of 128 n 128] by simp
  have q3: "n div 2097152 = n div 16384 div 128"
    using zdiv_zmult2_eq [of 128 n 16384] by simp
  have d2: "128 * (n div 16384) + n div 128 mod 128 = n div 128"
    using mult_div_mod_eq [of 128 "n div 128"] q2 by simp
  have d3: "128 * (n div 2097152) + n div 16384 mod 128 = n div 16384"
    using mult_div_mod_eq [of 128 "n div 16384"] q3 by simp
  have r4: "n div 2097152 mod 128 = n div 2097152"
    using assms by simp
  have r3: "n < 2097152 \<Longrightarrow> n div 16384 mod 128 = n div 16384"
    using assms by simp
  have r2: "n < 16384 \<Longrightarrow> n div 128 mod 128 = n div 128"
    using assms by simp
  have r1: "n < 128 \<Longrightarrow> n mod 128 = n"
    using assms by simp
  show ?thesis
  proof (cases "n < 128")
    case True
    then show ?thesis using r1 by (simp add: spec_VLQ_def parser_variable_len_1)
  next
    case F1: False
    show ?thesis
    proof (cases "n < 16384")
      case True
      have "parser_variable_len (spec_VLQ n) = 128 * (n div 128 mod 128) + n mod 128"
        using F1 True by (simp add: spec_VLQ_def parser_variable_len_2)
      also have "\<dots> = 128 * (n div 128) + n mod 128"
        by (simp only: r2 [OF True])
      also have "\<dots> = n" by (rule d1)
      finally show ?thesis .
    next
      case F2: False
      show ?thesis
      proof (cases "n < 2097152")
        case True
        have "parser_variable_len (spec_VLQ n) =
            128 * (128 * (n div 16384 mod 128) + n div 128 mod 128) + n mod 128"
          using F1 F2 True by (simp add: spec_VLQ_def parser_variable_len_3)
        also have "\<dots> = 128 * (128 * (n div 16384) + n div 128 mod 128) + n mod 128"
          by (simp only: r3 [OF True])
        also have "\<dots> = 128 * (n div 128) + n mod 128"
          by (simp only: d2)
        also have "\<dots> = n" by (rule d1)
        finally show ?thesis .
      next
        case F3: False
        have "parser_variable_len (spec_VLQ n) =
            128 * (128 * (128 * (n div 2097152 mod 128) + n div 16384 mod 128)
              + n div 128 mod 128) + n mod 128"
          using F1 F2 F3 by (simp add: spec_VLQ_def parser_variable_len_4)
        also have "\<dots> = 128 * (128 * (128 * (n div 2097152) + n div 16384 mod 128)
              + n div 128 mod 128) + n mod 128"
          by (simp only: r4)
        also have "\<dots> = 128 * (128 * (n div 16384) + n div 128 mod 128) + n mod 128"
          by (simp only: d3)
        also have "\<dots> = 128 * (n div 128) + n mod 128"
          by (simp only: d2)
        also have "\<dots> = n" by (rule d1)
        finally show ?thesis .
      qed
    qed
  qed
qed

lemma variable_len_spec_VLQ:
  assumes "0 \<le> n" and "n < 2097152"
  shows "variable_len n = spec_VLQ n"
proof -
  have d: "n div 128 div 128 = n div 16384"
    using zdiv_zmult2_eq [of 128 n 128] by simp
  have p1: "n div 128 \<le> 0 \<longleftrightarrow> n < 128"
    using pos_imp_zdiv_pos_iff [of 128 n] by (simp add: not_less [symmetric])
  have p2: "n div 16384 \<le> 0 \<longleftrightarrow> n < 16384"
    using pos_imp_zdiv_pos_iff [of 16384 n] by (simp add: not_less [symmetric])
  have s1: "n < 128 \<Longrightarrow> n mod 128 = n" using assms by simp
  have s2: "n < 16384 \<Longrightarrow> n div 128 mod 128 = n div 128"
    using assms by simp
  have s3: "n div 16384 mod 128 = n div 16384"
    using assms by simp
  show ?thesis
    using p1 p2 s1 s2 s3
    by (simp add: variable_len_cases spec_VLQ_def take_bit_eq_mod drop_bit_eq_div d)
qed

lemma join_bytes_Inr: "join_bytes ps = Inr h \<Longrightarrow> h = concat ps"
  by (induction ps arbitrary: h)
     (auto simp: py_bytes_def split: sum.splits if_splits)

lemma to_hex_spec_full:
  assumes "to_hex ev = Inr h" and "within_21_bits ev"
  shows "h = spec_full ev"
  using join_bytes_Inr [of "event_parts ev" h] assms
  by (cases ev)
     (simp_all add: to_hex_def spec_full_def within_21_bits_def variable_len_spec_VLQ)

lemma get_delta_time_spec_VLQ:
  "within_21_bits ev \<Longrightarrow> get_delta_time ev = spec_VLQ (delta_time ev)"
  by (cases ev) (simp_all add: get_delta_time_def within_21_bits_def variable_len_spec_VLQ)

lemma drop_status:
  "drop (Suc (length (spec_VLQ (delta_time ev)))) (spec_full ev) = spec_payload ev"
  by (simp add: spec_full_def)

lemma running_status_loop_spec:
  "list_all (\<lambda>ev. to_hex ev = Inr (spec_full ev) \<and> within_21_bits ev) evs \<Longrightarrow>
   running_status_loop bs acc evs = Inr (bs @ spec_emitted_from acc evs)"
proof (induction evs arbitrary: bs acc)
  case Nil
  then show ?case by simp
next
  case (Cons ev evs)
  then show ?case
    by (simp add: spec_emitted_def drop_status get_delta_time_spec_VLQ)
qed

lemma SysExEvent_init_status: "SysExEvent_init dt st dat = Inr ev \<Longrightarrow> 240 \<le> status ev"
  by (auto simp: SysExEvent_init_def Event_init_def in_dict_def StatusBytes_sysex_def
      split: if_splits)

lemma MetaEvent_init_status: "MetaEvent_init et dt dat = Inr ev \<Longrightarrow> status ev = 255"
  by (auto simp: MetaEvent_init_def Event_init_def split: if_splits)

text \<open>
  Where every event serializes and has its delta time and written length below
  \<open>2 ^ 21\<close>, \<open>Track.running_status\<close> (and so the \<open>bytes\<close> and \<open>length\<close> of a
  \<open>Track\<close> built with running status enabled) is the rule of the specification: the
  first event in full, then each later event as \<open>spec_emitted\<close> at the status of the
  event immediately before it, that is \<open>VLQ(delta_time)\<close> and the payload without the
  status byte when the two statuses are equal and below 240, and the event in full
  otherwise. A constructed \<open>SysExEvent\<close> or \<open>MetaEvent\<close> is written in full whatever
  the accumulator holds.
\<close>

lemma running_status_refines_spec:
  assumes "list_all (\<lambda>ev. (\<exists>h. to_hex ev = Inr h) \<and> within_21_bits ev) (ev0 # evs)"
  shows "running_status (ev0 # evs) =
           Inr (spec_full ev0 @ spec_emitted_from (status ev0) evs)"
    and "to_hex ev0 = Inr (spec_full ev0)"
    and "spec_emitted_from (status ev0) evs =
           concat (map (\<lambda>(prev, ev). spec_emitted (status prev) ev) (zip (ev0 # evs) evs))"
    and "Track_init (ev0 # evs) True =
           Inr \<lparr>header_trk = MTrk, events = ev0 # evs, running_status_mode = True,
                length_trk =
                  int (length (spec_full ev0 @ spec_emitted_from (status ev0) evs)),
                bytes = spec_full ev0 @ spec_emitted_from (status ev0) evs\<rparr>"
proof -
  have all: "list_all (\<lambda>ev. to_hex ev = Inr (spec_full ev) \<and> within_21_bits ev) (ev0 # evs)"
    using assms by (auto simp: list_all_iff dest: to_hex_spec_full)
  then show 1: "running_status (ev0 # evs) =
      Inr (spec_full ev0 @ spec_emitted_from (status ev0) evs)"
    using running_status_loop_spec [of evs "spec_full ev0" "status ev0"]
    by (simp add: running_status_def)
  show "to_hex ev0 = Inr (spec_full ev0)"
    using all by simp
  have 3: "spec_emitted_from (status e) es =
      concat (map (\<lambda>(prev, ev). spec_emitted (status prev) ev) (zip (e # es) es))" for e es
    by (induction es arbitrary: e) simp_all
  show "spec_emitted_from (status ev0) evs =
      concat (map (\<lambda>(prev, ev). spec_emitted (status prev) ev) (zip (ev0 # evs) evs))"
    by (rule 3)
  show "Track_init (ev0 # evs) True =
      Inr \<lparr>header_trk = MTrk, events = ev0 # evs, running_status_mode = True,
           length_trk = int (length (spec_full ev0 @ spec_emitted_from (status ev0) evs)),
           bytes = spec_full ev0 @ spec_emitted_from (status ev0) evs\<rparr>"
    using 1 by (simp add: Track_init_def length_and_bytes_def)
qed

lemma spec_emitted_SysEx_Meta_in_full:
  "SysExEvent_init dt st dat = Inr ev \<Longrightarrow> spec_emitted acc ev = spec_full ev"
  "MetaEvent_init et dt dat = Inr ev \<Longrightarrow> spec_emitted acc ev = spec_full ev"
  by (auto simp: spec_emitted_def dest: SysExEvent_init_status MetaEvent_init_status)

lemma running_status_refines_spec_example:
  "running_status [MidiEvent 0 144 [60, 127], MidiEvent 127 144 [60, 0],
        MetaEvent 0 255 [] 47, MidiEvent 0 144 [62, 100], SysExEvent 0 240 [1],
        MidiEvent 5 144 [62, 0], MidiEvent 5 145 [62, 0]] =
      Inr [0, 144, 60, 127,  127, 60, 0,  0, 255, 47, 0,  0, 144, 62, 100,
           0, 240, 1, 1,  5, 144, 62, 0,  5, 145, 62, 0]"
proof -
  have h: "list_all (\<lambda>ev. (\<exists>h. to_hex ev = Inr h) \<and> within_21_bits ev)
       [MidiEvent 0 144 [60, 127], MidiEvent 127 144 [60, 0],
        MetaEvent 0 255 [] 47, MidiEvent 0 144 [62, 100], SysExEvent 0 240 [1],
        MidiEvent 5 144 [62, 0], MidiEvent 5 145 [62, 0]]"
    by (simp add: to_hex_def py_bytes_def is_byte_def variable_len_def
        variable_len_step_def within_21_bits_def)
  show ?thesis
    using running_status_refines_spec(1) [OF h]
    by (simp add: spec_full_def spec_emitted_def spec_VLQ_def)
qed

text \<open>
  Claim C4 fails on the code for delta times from \<open>2 ^ 21\<close> on. The elision is as the
  claim says, but what is written before the payload is \<open>Event.variable_len\<close> of the
  delta time, which is not its variable-length quantity there (the encoder of claim
  C3). \<open>MidiEvent(2097152, 144, 0, [60, 0])\<close> after an event of the same status is
  written \<open>80 80 00 3C 00\<close>, a delta time of 0 on the wire, where
  \<open>VLQ(delta_time)\<close> followed by the payload is \<open>81 80 80 00 3C 00\<close>.
\<close>

theorem running_status_truncates_delta_time:
  "MidiEvent_init 0 144 0 [60, 127] = Inr (MidiEvent 0 144 [60, 127])
   \<and> MidiEvent_init 2097152 144 0 [60, 0] = Inr (MidiEvent 2097152 144 [60, 0])
   \<and> running_status [MidiEvent 0 144 [60, 127], MidiEvent 2097152 144 [60, 0]] =
       Inr [0, 144, 60, 127, 128, 128, 0, 60, 0]
   \<and> spec_full (MidiEvent 0 144 [60, 127]) @
       spec_emitted_from 144 [MidiEvent 2097152 144 [60, 0]] =
       [0, 144, 60, 127, 129, 128, 128, 0, 60, 0]
   \<and> Track_init [MidiEvent 0 144 [60, 127], MidiEvent 2097152 144 [60, 0]] True =
       Inr \<lparr>header_trk = [77, 84, 114, 107],
            events = [MidiEvent 0 144 [60, 127], MidiEvent 2097152 144 [60, 0]],
            running_status_mode = True, length_trk = 9,
            bytes = [0, 144, 60, 127, 128, 128, 0, 60, 0]\<rparr>
   \<and> parser_variable_len [129, 128, 128, 0] = 2097152
   \<and> parser_variable_len [128, 128, 0] = 0"
  by code_simp

section \<open>The decoder\<close>

text \<open>
  On an open file \<open>__read_header\<close> raises \<open>ValueError\<close> exactly when nothing is left
  to read or the next four bytes are the magic \<open>MThd\<close>. A serialized container starts
  with the magic of its header, so \<open>read_all\<close> raises \<open>ValueError\<close> on the bytes of
  every container whose header came from \<open>Header\<close>, after reading 8 bytes.
\<close>

lemma read_header_ValueError_iff:
  assumes "\<not> closed f"
  shows "fst (read_header f) = Inl ValueError \<longleftrightarrow>
     drop (pos f) (content f) = [] \<or> take 4 (drop (pos f) (content f)) = MThd"
proof -
  have m: "MThd \<noteq> []" by (simp add: MThd_def)
  have h: "Header_init ff nt pq \<noteq> Inl ValueError" for ff nt pq
    by (simp add: Header_init_def)
  have u: "unpack_HHH bs \<noteq> Inl ValueError" for bs
    by (simp add: unpack_HHH_def split: list.splits)
  show ?thesis
    using assms m h u
    by (auto simp: read_header_def io_bind_def io_lift_def file_read_def
        split: prod.splits sum.splits)
qed

lemma Header_init_mthd: "Header_init ff nt pq = Inr h \<Longrightarrow> mthd h = MThd"
  by (auto simp: Header_init_def split: if_splits)

lemma Header_to_hex_magic:
  "Header_to_hex h = Inr bs \<Longrightarrow> \<exists>rest. bs = mthd h @ rest \<and> length rest = 10"
  by (auto simp: Header_to_hex_def pack_L_def pack_H_def split: sum.splits if_splits)

lemma MidiFormat_to_hex_magic:
  "MidiFormat_to_hex mf = Inr bs \<Longrightarrow> \<exists>rest. bs = mthd (header mf) @ rest \<and> 10 \<le> length rest"
  by (auto simp: MidiFormat_to_hex_def split: sum.splits dest!: Header_to_hex_magic)

lemma read_all_serialized:
  assumes "mthd (header mf) = MThd" and "MidiFormat_to_hex mf = Inr bs"
  shows "read_all (open_file bs) = (Inl ValueError, \<lparr>content = bs, pos = 8, closed = False\<rparr>)"
proof -
  from MidiFormat_to_hex_magic [OF assms(2)] assms(1)
  obtain rest where bs: "bs = MThd @ rest" and len: "10 \<le> length rest"
    by auto
  have t4: "take 4 (take 8 bs) = MThd" using bs by (simp add: MThd_def)
  have l8: "length (take 8 bs) = 8" using bs len by (simp add: MThd_def)
  have ne: "take 8 bs \<noteq> []" using l8 by auto
  show ?thesis
    using t4 l8 ne
    by (simp add: read_all_def read_header_def io_bind_def io_lift_def file_read_def
        open_file_def)
qed

text \<open>A step that leaves the \<open>closed\<close> flag of the file as it found it.\<close>

definition keeps_closed :: "(infile \<Rightarrow> (error + 'a) \<times> infile) \<Rightarrow> bool" where
  "keeps_closed m = (\<forall>f r f'. m f = (r, f') \<longrightarrow> closed f' = closed f)"

lemma keeps_closedD: "keeps_closed m \<Longrightarrow> m f = (r, f') \<Longrightarrow> closed f' = closed f"
  by (auto simp: keeps_closed_def)

lemma keeps_closed_bind:
  "keeps_closed m \<Longrightarrow> (\<And>x. keeps_closed (k x)) \<Longrightarrow> keeps_closed (io_bind m k)"
  unfolding keeps_closed_def io_bind_def
  by (auto split: prod.splits sum.splits)

lemma keeps_closed_lift: "keeps_closed (io_lift r)"
  by (simp add: keeps_closed_def io_lift_def)

lemma keeps_closed_read: "keeps_closed (file_read n)"
  by (auto simp: keeps_closed_def file_read_def split: if_splits)

lemma keeps_closed_seek: "keeps_closed file_seek_back"
  by (auto simp: keeps_closed_def file_seek_back_def split: if_splits)

lemma keeps_closed_var_len_loop: "keeps_closed (read_var_len_loop cnt byte)"
proof (induction cnt arbitrary: byte)
  case 0
  then show ?case by (simp add: keeps_closed_def)
next
  case (Suc cnt)
  show ?case
    unfolding keeps_closed_def
  proof (intro allI impI)
    fix f r f'
    assume a: "read_var_len_loop (Suc cnt) byte f = (r, f')"
    obtain r1 f1 where rd: "file_read 1 f = (r1, f1)" by (cases "file_read 1 f")
    have c1: "closed f1 = closed f" using keeps_closedD [OF keeps_closed_read rd] .
    show "closed f' = closed f"
      using a rd c1 keeps_closedD [OF Suc.IH]
      by (auto split: sum.splits if_splits)
  qed
qed

lemma keeps_closed_var_len: "keeps_closed read_var_len"
  unfolding keeps_closed_def read_var_len_def
  by (auto split: prod.splits sum.splits dest: keeps_closedD [OF keeps_closed_var_len_loop])

lemmas keeps_closed_intros =
  keeps_closed_bind keeps_closed_lift keeps_closed_read keeps_closed_seek keeps_closed_var_len

lemma keeps_closed_if:
  "keeps_closed a \<Longrightarrow> keeps_closed b \<Longrightarrow> keeps_closed (if c then a else b)"
  by simp

lemma keeps_closed_prod2:
  "(\<And>a b. keeps_closed (g a b)) \<Longrightarrow> keeps_closed (case p of (a, b) \<Rightarrow> g a b)"
  by (cases p) simp

lemma keeps_closed_header: "keeps_closed read_header"
  unfolding read_header_def
  by (intro keeps_closed_intros keeps_closed_if keeps_closed_prod2)

lemma keeps_closed_event: "keeps_closed (read_event cur)"
  unfolding read_event_def read_midi_event_data_def read_meta_event_data_def
    read_sysex_event_data_def
  by (intro keeps_closed_intros keeps_closed_if keeps_closed_prod2)

lemma keeps_closed_track_loop: "keeps_closed (read_track_loop ev evs)"
  unfolding keeps_closed_def
proof (intro allI impI)
  fix f r f'
  show "read_track_loop ev evs f = (r, f') \<Longrightarrow> closed f' = closed f"
  proof (induction ev evs f rule: read_track_loop.induct)
    case (1 ev evs f)
    show ?case
    proof (cases "is_end_of_track ev")
      case True
      with "1.prems" show ?thesis by simp
    next
      case False
      obtain r1 f1 where re: "read_event ev f = (r1, f1)" by (cases "read_event ev f")
      have c1: "closed f1 = closed f" using keeps_closedD [OF keeps_closed_event re] .
      show ?thesis
      proof (cases r1)
        case (Inl e)
        with "1.prems" False re c1 show ?thesis by simp
      next
        case (Inr ev')
        with "1.prems" False re c1 "1.IH" [OF False re [symmetric] Inr] show ?thesis
          by simp
      qed
    qed
  qed
qed

lemma keeps_closed_track: "keeps_closed read_track"
  unfolding read_track_def
  by (intro keeps_closed_intros keeps_closed_if keeps_closed_event keeps_closed_track_loop)

lemma keeps_closed_tracks: "keeps_closed (read_tracks cnt trks)"
proof (induction cnt arbitrary: trks)
  case 0
  then show ?case by (simp add: keeps_closed_def)
next
  case (Suc cnt)
  show ?case
    unfolding keeps_closed_def
  proof (intro allI impI)
    fix f r f'
    assume a: "read_tracks (Suc cnt) trks f = (r, f')"
    obtain r1 f1 where rd: "read_track f = (r1, f1)" by (cases "read_track f")
    have c1: "closed f1 = closed f" using keeps_closedD [OF keeps_closed_track rd] .
    show "closed f' = closed f"
      using a rd c1 keeps_closedD [OF Suc.IH]
      by (auto split: sum.splits)
  qed
qed

text \<open>\<open>read_all\<close> closes the file exactly when it returns a container: every raise
  leaves the \<open>closed\<close> flag as it was.\<close>

lemma read_all_closed:
  assumes "read_all f = (r, f')"
  shows "closed f' = (closed f \<or> (\<exists>mf. r = Inr mf))"
proof -
  obtain r1 f1 where h: "read_header f = (r1, f1)" by (cases "read_header f")
  have c1: "closed f1 = closed f" using keeps_closedD [OF keeps_closed_header h] .
  show ?thesis
  proof (cases r1)
    case (Inl e)
    with assms h c1 show ?thesis by (auto simp: read_all_def io_bind_def)
  next
    case (Inr hdr)
    obtain r2 f2 where t: "read_tracks (nat (ntracks hdr)) [] f1 = (r2, f2)"
      by (cases "read_tracks (nat (ntracks hdr)) [] f1")
    have c2: "closed f2 = closed f1" using keeps_closedD [OF keeps_closed_tracks t] .
    show ?thesis
    proof (cases r2)
      case (Inl e)
      with assms h Inr t c1 c2 show ?thesis
        by (auto simp: read_all_def io_bind_def)
    next
      case trks: (Inr trks)
      show ?thesis
      proof (cases "MidiFormat_init (Some hdr) trks")
        case (Inl e)
        then have "read_all f = (Inl e, f2)"
          using h Inr t trks by (simp add: read_all_def io_bind_def io_lift_def)
        with assms c1 c2 show ?thesis by auto
      next
        case mf: (Inr mf)
        then have "read_all f = (Inr mf, file_close f2)"
          using h Inr t trks by (simp add: read_all_def io_bind_def io_lift_def)
        with assms show ?thesis by (auto simp: file_close_def)
      qed
    qed
  qed
qed

text \<open>
  Claim C2 fails on the code: the test of \<open>__read_header\<close> is
  \<open>mthd and mthd[:4] != b'MThd'\<close>, so the header of a standard MIDI file (magic
  \<open>MThd\<close>) raises \<open>ValueError\<close> after the first 8 bytes, and the 6 field bytes are
  read and the \<open>Header\<close> built only when the magic is something else (here \<open>XThd\<close>).
\<close>

theorem read_header_rejects_MThd:
  "read_header (open_file [77, 84, 104, 100, 0, 0, 0, 6, 0, 0, 0, 1, 0, 96]) =
     (Inl ValueError,
      \<lparr>content = [77, 84, 104, 100, 0, 0, 0, 6, 0, 0, 0, 1, 0, 96], pos = 8,
         closed = False\<rparr>)
   \<and> read_header (open_file [88, 84, 104, 100, 0, 0, 0, 6, 0, 0, 0, 1, 0, 96]) =
     (Inr \<lparr>mthd = [77, 84, 104, 100], length_hdr = 6, file_format = 0, ntracks = 1,
            ppqn = 96\<rparr>,
      \<lparr>content = [88, 84, 104, 100, 0, 0, 0, 6, 0, 0, 0, 1, 0, 96], pos = 14,
         closed = False\<rparr>)"
  by code_simp

text \<open>
  Claim C6 fails on the code: \<open>read_all\<close> calls \<open>self.file.close()\<close> only after the
  \<open>MidiFormat\<close> has been built. On a stream that starts with \<open>MThd\<close>, on an empty
  stream and on a stream cut inside its track, it raises and leaves the file open; the
  file is closed on the one path that returns a container.
\<close>

theorem read_all_leaves_file_open_on_error:
  "read_all (open_file [77, 84, 104, 100, 0, 0, 0, 6, 0, 0, 0, 1, 0, 96,
       77, 84, 114, 107, 0, 0, 0, 4, 0, 255, 47, 0]) =
     (Inl ValueError,
      \<lparr>content = [77, 84, 104, 100, 0, 0, 0, 6, 0, 0, 0, 1, 0, 96,
          77, 84, 114, 107, 0, 0, 0, 4, 0, 255, 47, 0], pos = 8, closed = False\<rparr>)
   \<and> read_all (open_file []) = (Inl ValueError, \<lparr>content = [], pos = 0, closed = False\<rparr>)
   \<and> read_all (open_file [88, 84, 104, 100, 0, 0, 0, 6, 0, 0, 0, 1, 0, 96,
       77, 84, 114, 107, 0, 0, 0, 4, 0, 255]) =
     (Inl StructError,
      \<lparr>content = [88, 84, 104, 100, 0, 0, 0, 6, 0, 0, 0, 1, 0, 96,
          77, 84, 114, 107, 0, 0, 0, 4, 0, 255], pos = 24, closed = False\<rparr>)
   \<and> closed (snd (read_all (open_file [88, 84, 104, 100, 0, 0, 0, 6, 0, 0, 0, 1, 0, 96,
       77, 84, 114, 107, 0, 0, 0, 4, 0, 255, 47, 0])))"
  by code_simp

text \<open>
  Claim C1 fails on the code for every container: a serialized container starts with
  \<open>MThd\<close>, which \<open>__read_header\<close> refuses. The container here is
  \<open>Header(0, 1, 96)\<close> with one track of \<open>MidiEvent(1270000, 144, 9, [60, 127])\<close>,
  \<open>MidiEvent(127, 144, 9, [60, 0])\<close> and \<open>MetaEvent(47, 0)\<close>, serialized with running
  status and without; decoding either byte string raises \<open>ValueError\<close>.
\<close>

theorem read_all_of_to_hex_raises:
  "MidiEvent_init 1270000 144 9 [60, 127] = Inr (MidiEvent 1270000 153 [60, 127])
   \<and> MidiEvent_init 127 144 9 [60, 0] = Inr (MidiEvent 127 153 [60, 0])
   \<and> MetaEvent_init 47 0 [] = Inr (MetaEvent 0 255 [] 47)
   \<and> Header_init 0 1 96 =
       Inr \<lparr>mthd = MThd, length_hdr = 6, file_format = 0, ntracks = 1, ppqn = 96\<rparr>
   \<and> (case Track_init [MidiEvent 1270000 153 [60, 127], MidiEvent 127 153 [60, 0],
              MetaEvent 0 255 [] 47] True of
         Inl e \<Rightarrow> False
       | Inr t \<Rightarrow>
           (case MidiFormat_init
                   (Some \<lparr>mthd = MThd, length_hdr = 6, file_format = 0, ntracks = 1,
                           ppqn = 96\<rparr>) [t] of
              Inl e \<Rightarrow> False
            | Inr mf \<Rightarrow>
                MidiFormat_to_hex mf =
                  Inr [77, 84, 104, 100, 0, 0, 0, 6, 0, 0, 0, 1, 0, 96, 77, 84, 114, 107,
                       0, 0, 0, 13, 205, 193, 112, 153, 60, 127, 127, 60, 0, 0, 255, 47, 0]))
   \<and> fst (read_all (open_file
       [77, 84, 104, 100, 0, 0, 0, 6, 0, 0, 0, 1, 0, 96, 77, 84, 114, 107,
        0, 0, 0, 13, 205, 193, 112, 153, 60, 127, 127, 60, 0, 0, 255, 47, 0])) =
       Inl ValueError
   \<and> (case Track_init [MidiEvent 1270000 153 [60, 127], MidiEvent 127 153 [60, 0],
              MetaEvent 0 255 [] 47] False of
         Inl e \<Rightarrow> False
       | Inr t \<Rightarrow>
           (case MidiFormat_init
                   (Some \<lparr>mthd = MThd, length_hdr = 6, file_format = 0, ntracks = 1,
                           ppqn = 96\<rparr>) [t] of
              Inl e \<Rightarrow> False
            | Inr mf \<Rightarrow>
                MidiFormat_to_hex mf =
                  Inr [77, 84, 104, 100, 0, 0, 0, 6, 0, 0, 0, 1, 0, 96, 77, 84, 114, 107,
                       0, 0, 0, 14, 205, 193, 112, 153, 60, 127, 127, 153, 60, 0, 0, 255,
                       47, 0]))
   \<and> fst (read_all (open_file
       [77, 84, 104, 100, 0, 0, 0, 6, 0, 0, 0, 1, 0, 96, 77, 84, 114, 107,
        0, 0, 0, 14, 205, 193, 112, 153, 60, 127, 127, 153, 60, 0, 0, 255, 47, 0])) =
       Inl ValueError"
  by code_simp

end
